theory Spec2Isabelle
  imports Complex_Main "HOL-Library.Multiset" "HOL-Library.Sublist"
begin

section \<open>Python floats\<close>

text \<open>
  The two programs, \<^verbatim>\<open>master.py\<close> (the Initiator) and \<^verbatim>\<open>slave.py\<close> (the Responder),
  exchange one JSON object per line over a serial port, and the Initiator computes an
  angle from three distances. The distances are Python \<^verbatim>\<open>float\<close>s, that is IEEE 754
  binary64 values: a finite value, one of the two infinities, or NaN. The two zeros
  are one value here, \<open>Fin 0\<close>; the programs only compare and divide, and there
  \<^verbatim>\<open>-0.0\<close> behaves as \<^verbatim>\<open>0.0\<close>.
\<close>

datatype pyfloat = Fin real | PInf | NInf | NaN

text \<open>Python's \<^verbatim>\<open><\<close> and \<^verbatim>\<open><=\<close> on floats: every comparison with NaN is false.\<close>

fun flt_less :: "pyfloat \<Rightarrow> pyfloat \<Rightarrow> bool" where
  "flt_less (Fin a) (Fin b) = (a < b)"
| "flt_less (Fin a) PInf = True"
| "flt_less NInf (Fin b) = True"
| "flt_less NInf PInf = True"
| "flt_less _ _ = False"

fun flt_le :: "pyfloat \<Rightarrow> pyfloat \<Rightarrow> bool" where
  "flt_le (Fin a) (Fin b) = (a \<le> b)"
| "flt_le (Fin a) PInf = True"
| "flt_le NInf (Fin b) = True"
| "flt_le NInf PInf = True"
| "flt_le PInf PInf = True"
| "flt_le NInf NInf = True"
| "flt_le _ _ = False"

text \<open>
  The finite binary64 values: an integer of at most 53 bits times a power of two
  with an exponent between -1074 and 971.
\<close>

definition is_float64 :: "real \<Rightarrow> bool" where
  "is_float64 x \<longleftrightarrow>
     (\<exists>m k. \<bar>m\<bar> < 2 ^ 53 \<and> -1074 \<le> k \<and> k \<le> 971 \<and> x = of_int m * 2 powr of_int k)"

fun wf_float :: "pyfloat \<Rightarrow> bool" where
  "wf_float (Fin x) = is_float64 x"
| "wf_float _ = True"

text \<open>
  Rounding to nearest, ties to even. \<open>binade a\<close> is the exponent of the binade of a
  magnitude \<open>a\<close>, no smaller than that of the subnormal numbers; \<open>ulp a\<close> is the
  spacing of the binary64 values there; \<open>round_mag a\<close> is the multiple of \<open>ulp a\<close>
  nearest to \<open>a\<close>. A magnitude that rounds to \<open>2 ^ 1024\<close> overflows to an infinity.
\<close>

definition round_half_even :: "real \<Rightarrow> int" where
  "round_half_even q =
     (let f = \<lfloor>q\<rfloor>; d = q - of_int f
      in if d < 1 / 2 then f else if 1 / 2 < d then f + 1 else if even f then f else f + 1)"

definition binade :: "real \<Rightarrow> int" where
  "binade a = (if a < 2 powr (-1022) then -1022 else \<lfloor>log 2 a\<rfloor>)"

definition ulp :: "real \<Rightarrow> real" where
  "ulp a = 2 powr (of_int (binade a) - 52)"

definition round_mag :: "real \<Rightarrow> real" where
  "round_mag a = of_int (round_half_even (a / ulp a)) * ulp a"

definition round64 :: "real \<Rightarrow> pyfloat" where
  "round64 x =
     (let y = round_mag \<bar>x\<bar>
      in if 2 ^ 1024 \<le> y then (if 0 < x then PInf else NInf) else Fin (sgn x * y))"

text \<open>
  The arithmetic of the hardware: the exact result, rounded. Python raises nothing
  on \<^verbatim>\<open>+\<close>, \<^verbatim>\<open>-\<close> and \<^verbatim>\<open>*\<close>; division is \<open>py_div\<close> below, which never calls
  \<open>fdiv\<close> with a zero divisor.
\<close>

fun fneg :: "pyfloat \<Rightarrow> pyfloat" where
  "fneg (Fin a) = Fin (- a)"
| "fneg PInf = NInf"
| "fneg NInf = PInf"
| "fneg NaN = NaN"

fun fadd :: "pyfloat \<Rightarrow> pyfloat \<Rightarrow> pyfloat" where
  "fadd (Fin a) (Fin b) = round64 (a + b)"
| "fadd NaN _ = NaN"
| "fadd _ NaN = NaN"
| "fadd PInf NInf = NaN"
| "fadd NInf PInf = NaN"
| "fadd PInf _ = PInf"
| "fadd _ PInf = PInf"
| "fadd NInf _ = NInf"
| "fadd _ NInf = NInf"

definition fsub :: "pyfloat \<Rightarrow> pyfloat \<Rightarrow> pyfloat" where
  "fsub a b = fadd a (fneg b)"

fun fmul :: "pyfloat \<Rightarrow> pyfloat \<Rightarrow> pyfloat" where
  "fmul (Fin a) (Fin b) = round64 (a * b)"
| "fmul NaN _ = NaN"
| "fmul _ NaN = NaN"
| "fmul (Fin a) PInf = (if a = 0 then NaN else if 0 < a then PInf else NInf)"
| "fmul (Fin a) NInf = (if a = 0 then NaN else if 0 < a then NInf else PInf)"
| "fmul PInf (Fin b) = (if b = 0 then NaN else if 0 < b then PInf else NInf)"
| "fmul NInf (Fin b) = (if b = 0 then NaN else if 0 < b then NInf else PInf)"
| "fmul PInf PInf = PInf"
| "fmul PInf NInf = NInf"
| "fmul NInf PInf = NInf"
| "fmul NInf NInf = PInf"

fun fdiv :: "pyfloat \<Rightarrow> pyfloat \<Rightarrow> pyfloat" where
  "fdiv (Fin a) (Fin b) = round64 (a / b)"
| "fdiv NaN _ = NaN"
| "fdiv _ NaN = NaN"
| "fdiv (Fin a) _ = Fin 0"
| "fdiv PInf (Fin b) = (if 0 < b then PInf else NInf)"
| "fdiv NInf (Fin b) = (if 0 < b then NInf else PInf)"
| "fdiv _ _ = NaN"

section \<open>Python values, exceptions and the standard library\<close>

text \<open>
  A value returned by \<^verbatim>\<open>json.loads\<close> is a \<open>json\<close>; a Python \<^verbatim>\<open>dict\<close> is an
  association list read with \<open>map_of\<close>, and Python's \<^verbatim>\<open>None\<close> is \<open>JNull\<close>.
  \<^verbatim>\<open>bytes\<close> and \<^verbatim>\<open>str\<close> are both \<open>string\<close>.
\<close>

datatype json =
    JNull
  | JBool bool
  | JInt int
  | JFloat pyfloat
  | JString string
  | JArray "json list"
  | JObject "(string \<times> json) list"

text \<open>The exceptions that the modelled code raises or lets through.\<close>

datatype exn =
    TimeoutError
  | RuntimeError string
  | UnicodeDecodeError
  | JSONDecodeError
  | RecursionError
  | ValueError
  | TypeError
  | KeyError string
  | AttributeError
  | ZeroDivisionError
  | OverflowError
  | EOFError

text \<open>
  The library functions that the programs call are parameters of the model. On text:
  \<^verbatim>\<open>bytes.decode\<close>, \<^verbatim>\<open>str.encode\<close>, \<^verbatim>\<open>str.strip\<close>, \<^verbatim>\<open>json.loads\<close>, \<^verbatim>\<open>json.dumps\<close>,
  \<^verbatim>\<open>float\<close> applied to a \<^verbatim>\<open>str\<close> (\<open>None\<close> is its \<^verbatim>\<open>ValueError\<close>) and the text
  that an f-string shows for a value that is not a \<^verbatim>\<open>str\<close>; decoding and parsing
  return the exception they raise as \<open>Inl\<close>. From the C library, which is not
  specified to the last bit: \<open>libm_pow2 v\<close> is what \<^verbatim>\<open>v ** 2\<close> computes for a finite
  \<open>v\<close> before Python looks for an overflow, and \<open>libm_acos v\<close> is \<^verbatim>\<open>acos(v)\<close> for
  \<open>v\<close> in \<open>[-1, 1]\<close>.
\<close>

record pylib =
  bytes_decode :: "string \<Rightarrow> exn + string"
  str_encode :: "string \<Rightarrow> string"
  str_strip :: "string \<Rightarrow> string"
  json_loads :: "string \<Rightarrow> exn + json"
  json_dumps :: "json \<Rightarrow> string"
  float_of_str :: "string \<Rightarrow> pyfloat option"
  format_other :: "json \<Rightarrow> string"
  libm_pow2 :: "real \<Rightarrow> pyfloat"
  libm_acos :: "real \<Rightarrow> real"

text \<open>\<^verbatim>\<open>key in value\<close> for a string key.\<close>

fun py_contains :: "string \<Rightarrow> json \<Rightarrow> exn + bool" where
  "py_contains k (JObject kvs) = Inr (map_of kvs k \<noteq> None)"
| "py_contains k (JArray xs) = Inr (JString k \<in> set xs)"
| "py_contains k (JString s) = Inr (sublist k s)"
| "py_contains k _ = Inl TypeError"

text \<open>\<^verbatim>\<open>value[key]\<close> for a string key.\<close>

fun py_getitem :: "json \<Rightarrow> string \<Rightarrow> exn + json" where
  "py_getitem (JObject kvs) k = (case map_of kvs k of None \<Rightarrow> Inl (KeyError k) | Some v \<Rightarrow> Inr v)"
| "py_getitem _ k = Inl TypeError"

text \<open>\<^verbatim>\<open>value.get(key)\<close>: only a \<^verbatim>\<open>dict\<close> has the method.\<close>

fun py_get :: "json \<Rightarrow> string \<Rightarrow> exn + json" where
  "py_get (JObject kvs) k = (case map_of kvs k of None \<Rightarrow> Inr JNull | Some v \<Rightarrow> Inr v)"
| "py_get _ k = Inl AttributeError"

text \<open>
  \<^verbatim>\<open>float(value)\<close>. An \<^verbatim>\<open>int\<close> is rounded to the nearest float, and one that is too
  large raises \<^verbatim>\<open>OverflowError\<close>.
\<close>

fun py_float :: "pylib \<Rightarrow> json \<Rightarrow> exn + pyfloat" where
  "py_float lib (JFloat r) = Inr r"
| "py_float lib (JInt i) =
     (case round64 (of_int i) of Fin v \<Rightarrow> Inr (Fin v) | _ \<Rightarrow> Inl OverflowError)"
| "py_float lib (JBool b) = Inr (Fin (if b then 1 else 0))"
| "py_float lib (JString s) = (case float_of_str lib s of None \<Rightarrow> Inl ValueError | Some r \<Rightarrow> Inr r)"
| "py_float lib _ = Inl TypeError"

text \<open>The text an f-string shows for a value.\<close>

fun py_format :: "pylib \<Rightarrow> json \<Rightarrow> string" where
  "py_format lib (JString s) = s"
| "py_format lib v = format_other lib v"

text \<open>\<^verbatim>\<open>json.loads(raw.decode().strip())\<close>, in both programs.\<close>

definition parse_line :: "pylib \<Rightarrow> string \<Rightarrow> exn + json" where
  "parse_line lib raw =
     (case bytes_decode lib raw of
        Inl e \<Rightarrow> Inl e
      | Inr s \<Rightarrow> json_loads lib (str_strip lib s))"

text \<open>\<^verbatim>\<open>(json.dumps(value) + "\n").encode()\<close>, in both programs.\<close>

definition send_line :: "pylib \<Rightarrow> json \<Rightarrow> string" where
  "send_line lib v = str_encode lib (json_dumps lib v @ [CHR 0x0A])"

section \<open>Geometry (master.py)\<close>

text \<open>
  \<^verbatim>\<open>x ** 2\<close>: an infinity squares to \<^verbatim>\<open>inf\<close>, NaN to NaN, and a finite value whose
  square overflows raises \<^verbatim>\<open>OverflowError\<close>.
\<close>

fun py_pow2 :: "pylib \<Rightarrow> pyfloat \<Rightarrow> exn + pyfloat" where
  "py_pow2 lib (Fin v) =
     (case libm_pow2 lib v of
        PInf \<Rightarrow> Inl OverflowError
      | NInf \<Rightarrow> Inl OverflowError
      | r \<Rightarrow> Inr r)"
| "py_pow2 lib NaN = Inr NaN"
| "py_pow2 lib _ = Inr PInf"

text \<open>\<^verbatim>\<open>a / b\<close> raises \<^verbatim>\<open>ZeroDivisionError\<close> when \<^verbatim>\<open>b == 0\<close>.\<close>

definition py_div :: "pyfloat \<Rightarrow> pyfloat \<Rightarrow> exn + pyfloat" where
  "py_div a b = (if b = Fin 0 then Inl ZeroDivisionError else Inr (fdiv a b))"

text \<open>
  \<^verbatim>\<open>math.acos\<close> raises \<^verbatim>\<open>ValueError\<close> outside \<open>[-1, 1]\<close> and returns NaN on NaN.
\<close>

fun math_acos :: "pylib \<Rightarrow> pyfloat \<Rightarrow> exn + pyfloat" where
  "math_acos lib (Fin v) =
     (if -1 \<le> v \<and> v \<le> 1 then Inr (Fin (libm_acos lib v)) else Inl ValueError)"
| "math_acos lib NaN = Inr NaN"
| "math_acos lib _ = Inl ValueError"

text \<open>
  \<^verbatim>\<open>math.pi\<close>, the float nearest to \<open>\<pi>\<close>, and \<^verbatim>\<open>math.degrees\<close>, which multiplies
  by the float \<^verbatim>\<open>180.0 / math.pi\<close>.
\<close>

definition pi_f :: real where
  "pi_f = 884279719003555 / 2 ^ 48"

definition rad_to_deg :: pyfloat where
  "rad_to_deg = fdiv (Fin 180) (Fin pi_f)"

definition math_degrees :: "pyfloat \<Rightarrow> pyfloat" where
  "math_degrees x = fmul x rad_to_deg"

text \<open>
  The builtins \<^verbatim>\<open>min(a, b)\<close> and \<^verbatim>\<open>max(a, b)\<close> keep \<open>a\<close> unless \<open>b\<close> is smaller,
  or larger; with a NaN for \<open>b\<close> they keep \<open>a\<close>.
\<close>

definition py_min :: "pyfloat \<Rightarrow> pyfloat \<Rightarrow> pyfloat" where
  "py_min a b = (if flt_less b a then b else a)"

definition py_max :: "pyfloat \<Rightarrow> pyfloat \<Rightarrow> pyfloat" where
  "py_max a b = (if flt_less a b then b else a)"

text \<open>\<^verbatim>\<open>compute_angle\<close>: \<open>Inr None\<close> is the return value \<^verbatim>\<open>None\<close>.\<close>

definition compute_angle :: "pylib \<Rightarrow> pyfloat \<Rightarrow> pyfloat \<Rightarrow> pyfloat \<Rightarrow> exn + pyfloat option" where
  "compute_angle lib dxa dxb dab =
     (if dxa = Fin 0 \<or> dxb = Fin 0 then Inr None
      else case py_pow2 lib dxa of
        Inl e \<Rightarrow> Inl e
      | Inr a2 \<Rightarrow>
      (case py_pow2 lib dxb of
        Inl e \<Rightarrow> Inl e
      | Inr b2 \<Rightarrow>
      (case py_pow2 lib dab of
        Inl e \<Rightarrow> Inl e
      | Inr c2 \<Rightarrow>
      (case py_div (fsub (fadd a2 b2) c2) (fmul (fmul (Fin 2) dxa) dxb) of
        Inl e \<Rightarrow> Inl e
      | Inr cos_theta \<Rightarrow>
      (case math_acos lib (py_max (Fin (-1)) (py_min (Fin 1) cos_theta)) of
        Inl e \<Rightarrow> Inl e
      | Inr a \<Rightarrow> Inr (Some (math_degrees a)))))))"

definition validate_triangle :: "pyfloat \<Rightarrow> pyfloat \<Rightarrow> pyfloat \<Rightarrow> bool" where
  "validate_triangle dxa dxb dab \<longleftrightarrow>
     flt_less dab (fadd dxa dxb) \<and> flt_less dxb (fadd dxa dab) \<and> flt_less dxa (fadd dxb dab)"

text \<open>
  The specification's wording of the triangle check, on the exact lengths:
  \<open>a + b > c\<close> for every arrangement \<open>a, b, c\<close> of the three sides.
\<close>

definition strict_triangle_inequalities :: "real \<Rightarrow> real \<Rightarrow> real \<Rightarrow> bool" where
  "strict_triangle_inequalities dxa dxb dab \<longleftrightarrow>
     (\<forall>a b c. mset [a, b, c] = mset [dxa, dxb, dab] \<longrightarrow> a + b > c)"

section \<open>Operator input\<close>

text \<open>
  \<^verbatim>\<open>prompt_distance\<close> (master.py) and \<^verbatim>\<open>get_distance_from_user\<close> (slave.py) read
  lines from standard input until one is a number that is not negative. The lines
  still to come are a list; \<^verbatim>\<open>input()\<close> at its end raises \<^verbatim>\<open>EOFError\<close>. The result
  is the distance and the lines left.
\<close>

fun prompt_distance :: "pylib \<Rightarrow> string list \<Rightarrow> exn + (pyfloat \<times> string list)" where
  "prompt_distance lib [] = Inl EOFError"
| "prompt_distance lib (l # ls) =
     (case float_of_str lib l of
        None \<Rightarrow> prompt_distance lib ls
      | Some val \<Rightarrow> if flt_less val (Fin 0) then prompt_distance lib ls else Inr (val, ls))"

fun get_distance_from_user :: "pylib \<Rightarrow> string list \<Rightarrow> exn + (pyfloat \<times> string list)" where
  "get_distance_from_user lib [] = Inl EOFError"
| "get_distance_from_user lib (l # ls) =
     (case float_of_str lib l of
        None \<Rightarrow> get_distance_from_user lib ls
      | Some val \<Rightarrow> if flt_less val (Fin 0) then get_distance_from_user lib ls else Inr (val, ls))"

section \<open>The Initiator (master.py)\<close>

text \<open>
  \<^verbatim>\<open>fetch_dxb_from_slave\<close>: \<open>raw\<close> is what \<^verbatim>\<open>uart.readline()\<close> returns, empty after a
  timeout. The result is the bytes written to the port and the outcome.
\<close>

definition fetch_dxb_from_slave :: "pylib \<Rightarrow> string \<Rightarrow> string \<times> (exn + pyfloat)" where
  "fetch_dxb_from_slave lib raw =
     (send_line lib (JObject [(''cmd'', JString ''GET_DISTANCE'')]),
      if raw = [] then Inl TimeoutError
      else case parse_line lib raw of
             Inl e \<Rightarrow> Inl e
           | Inr response \<Rightarrow>
               (case py_contains ''error'' response of
                  Inl e \<Rightarrow> Inl e
                | Inr True \<Rightarrow>
                    (case py_getitem response ''error'' of
                       Inl e \<Rightarrow> Inl e
                     | Inr v \<Rightarrow> Inl (RuntimeError (''Slave returned error: '' @ py_format lib v)))
                | Inr False \<Rightarrow>
                    (case py_getitem response ''dxb'' of
                       Inl e \<Rightarrow> Inl e
                     | Inr v \<Rightarrow> py_float lib v)))"

text \<open>
  \<^verbatim>\<open>run_master\<close>: the operator's lines and the line read from the port go in; what
  comes out is the exception that ends the run, or the four values handed to
  \<^verbatim>\<open>print_results\<close>, the last of them the angle or \<^verbatim>\<open>None\<close>.
\<close>

definition run_master ::
  "pylib \<Rightarrow> string list \<Rightarrow> string \<Rightarrow>
     exn + (pyfloat \<times> pyfloat \<times> pyfloat \<times> pyfloat option)" where
  "run_master lib stdin raw =
     (case prompt_distance lib stdin of
        Inl e \<Rightarrow> Inl e
      | Inr (dxa, stdin1) \<Rightarrow>
          (case prompt_distance lib stdin1 of
             Inl e \<Rightarrow> Inl e
           | Inr (dab, stdin2) \<Rightarrow>
               (case snd (fetch_dxb_from_slave lib raw) of
                  Inl e \<Rightarrow> Inl e
                | Inr dxb \<Rightarrow>
                    if \<not> validate_triangle dxa dxb dab then Inr (dxa, dxb, dab, None)
                    else (case compute_angle lib dxa dxb dab of
                            Inl e \<Rightarrow> Inl e
                          | Inr theta \<Rightarrow> Inr (dxa, dxb, dab, theta)))))"

section \<open>The Responder (slave.py)\<close>

text \<open>What the Responder prints, and what it writes to the port, in order.\<close>

datatype slave_log =
    Log_timeout
  | Log_bad_data exn
  | Log_request json
  | Log_sent pyfloat
  | Log_unknown

datatype effect = Print slave_log | Write string

fun writes :: "effect list \<Rightarrow> string list" where
  "writes [] = []"
| "writes (Print l # es) = writes es"
| "writes (Write w # es) = w # writes es"

text \<open>
  One pass through the body of the loop of \<^verbatim>\<open>run_slave\<close>, for the line \<open>raw\<close>
  returned by \<^verbatim>\<open>uart.readline()\<close>: the effects of the pass, and either the exception
  that leaves the loop or the operator's lines left for the next pass.
\<close>

definition slave_iteration ::
  "pylib \<Rightarrow> string \<Rightarrow> string list \<Rightarrow> effect list \<times> (exn + string list)" where
  "slave_iteration lib raw stdin =
     (if raw = [] then ([Print Log_timeout], Inr stdin)
      else case parse_line lib raw of
             Inl e \<Rightarrow>
               if e = JSONDecodeError \<or> e = UnicodeDecodeError
               then ([Print (Log_bad_data e)], Inr stdin)
               else ([], Inl e)
           | Inr request \<Rightarrow>
               (case py_get request ''cmd'' of
                  Inl e \<Rightarrow> ([Print (Log_request request)], Inl e)
                | Inr cmd \<Rightarrow>
                    if cmd = JString ''GET_DISTANCE''
                    then (case get_distance_from_user lib stdin of
                            Inl e \<Rightarrow> ([Print (Log_request request)], Inl e)
                          | Inr (dxb, stdin') \<Rightarrow>
                              ([Print (Log_request request),
                                Write (send_line lib (JObject [(''dxb'', JFloat dxb)])),
                                Print (Log_sent dxb)], Inr stdin'))
                    else ([Print (Log_request request),
                           Write (send_line lib (JObject [(''error'', JString ''unknown command'')])),
                           Print Log_unknown], Inr stdin)))"

text \<open>
  \<^verbatim>\<open>run_slave\<close> over the lines that the successive calls of \<^verbatim>\<open>uart.readline()\<close>
  return. The loop has no exit of its own: when the lines are used up it is still
  \<open>Listening\<close>; an exception that no handler catches leaves it \<open>Crashed\<close>.
\<close>

datatype slave_status = Listening | Crashed exn

fun run_slave :: "pylib \<Rightarrow> string list \<Rightarrow> string list \<Rightarrow> effect list \<times> slave_status" where
  "run_slave lib [] stdin = ([], Listening)"
| "run_slave lib (raw # rest) stdin =
     (case slave_iteration lib raw stdin of
        (out, Inl e) \<Rightarrow> (out, Crashed e)
      | (out, Inr stdin') \<Rightarrow>
          (case run_slave lib rest stdin' of (out', st) \<Rightarrow> (out @ out', st)))"

section \<open>A library instance for concrete runs\<close>

text \<open>
  The theorems below hold for every library. To run the programs on concrete lines,
  \<open>sample_lib\<close> answers as Python does on the lines and numbers used in this
  theory: bytes below 128 decode to themselves and the byte \<open>0xFF\<close> does not decode,
  \<^verbatim>\<open>json.loads("[]")\<close> is the empty list, \<^verbatim>\<open>json.loads("hello")\<close> raises
  \<^verbatim>\<open>JSONDecodeError\<close>, \<^verbatim>\<open>json.loads\<close> of 2000 opening brackets raises
  \<^verbatim>\<open>RecursionError\<close>, \<^verbatim>\<open>json.dumps({"dxb": 1.0})\<close> is \<^verbatim>\<open>{"dxb": 1.0}\<close>, a square
  is the exact square rounded, \<^verbatim>\<open>acos(0.0)\<close> is \<^verbatim>\<open>math.pi / 2\<close> and \<^verbatim>\<open>acos(-1.0)\<close> is
  \<^verbatim>\<open>math.pi\<close>. It is not a JSON parser or a C library and says nothing about other
  lines and numbers.
\<close>

definition sample_decode :: "string \<Rightarrow> exn + string" where
  "sample_decode bs =
     (if list_all (\<lambda>c. (of_char c :: nat) < 128) bs then Inr bs else Inl UnicodeDecodeError)"

definition is_space :: "char \<Rightarrow> bool" where
  "is_space c \<longleftrightarrow>
     c \<in> set [CHR 0x09, CHR 0x0A, CHR 0x0B, CHR 0x0C, CHR 0x0D,
              CHR 0x1C, CHR 0x1D, CHR 0x1E, CHR 0x1F, CHR 0x20]"

definition sample_strip :: "string \<Rightarrow> string" where
  "sample_strip s = rev (dropWhile is_space (rev (dropWhile is_space s)))"

definition sample_loads :: "string \<Rightarrow> exn + json" where
  \<open>sample_loads s =
     (if s = ''{"cmd": "GET_DISTANCE"}'' then Inr (JObject [(''cmd'', JString ''GET_DISTANCE'')])
      else if s = ''{"dxb": 1.0}'' then Inr (JObject [(''dxb'', JFloat (Fin 1))])
      else if s = ''{"error": "unknown command"}''
        then Inr (JObject [(''error'', JString ''unknown command'')])
      else if s = ''{}'' then Inr (JObject [])
      else if s = ''[]'' then Inr (JArray [])
      else if s = replicate 2000 (CHR ''['') then Inl RecursionError
      else Inl JSONDecodeError)\<close>

definition sample_dumps :: "json \<Rightarrow> string" where
  \<open>sample_dumps v =
     (if v = JObject [(''cmd'', JString ''GET_DISTANCE'')] then ''{"cmd": "GET_DISTANCE"}''
      else if v = JObject [(''dxb'', JFloat (Fin 1))] then ''{"dxb": 1.0}''
      else if v = JObject [(''error'', JString ''unknown command'')]
        then ''{"error": "unknown command"}''
      else if v = JObject [] then ''{}''
      else if v = JArray [] then ''[]''
      else ''null'')\<close>

definition sample_float :: "string \<Rightarrow> pyfloat option" where
  "sample_float s =
     (if s = ''1.0'' then Some (Fin 1)
      else if s = ''3.0'' then Some (Fin 3)
      else if s = ''-2.0'' then Some (Fin (-2))
      else None)"

definition sample_pow2 :: "real \<Rightarrow> pyfloat" where
  "sample_pow2 v = round64 (v * v)"

definition sample_acos :: "real \<Rightarrow> real" where
  "sample_acos v = (if v = 0 then pi_f / 2 else if v = -1 then pi_f else 0)"

definition sample_lib :: pylib where
  "sample_lib =
     \<lparr>bytes_decode = sample_decode, str_encode = (\<lambda>s. s), str_strip = sample_strip,
      json_loads = sample_loads, json_dumps = sample_dumps, float_of_str = sample_float,
      format_other = sample_dumps, libm_pow2 = sample_pow2, libm_acos = sample_acos\<rparr>"

section \<open>Rounding\<close>

text \<open>
  Rounding half to even is monotone and fixes the integers; the rounded magnitude stays
  within its binade; so \<open>round64\<close> is monotone, and it leaves every float where it
  is. The last lemmas evaluate \<open>round64\<close> at a value whose binade is known, and
  below the smallest subnormal number.
\<close>

lemma rhe_bounds: "\<lfloor>q\<rfloor> \<le> round_half_even q \<and> round_half_even q \<le> \<lfloor>q\<rfloor> + 1"
  by (simp add: round_half_even_def Let_def)

lemma rhe_int [simp]: "round_half_even (of_int n) = n"
  by (simp add: round_half_even_def)

lemma rhe_mono:
  assumes "q \<le> q'"
  shows "round_half_even q \<le> round_half_even q'"
proof (cases "\<lfloor>q\<rfloor> = \<lfloor>q'\<rfloor>")
  case True
  then have "q - of_int \<lfloor>q\<rfloor> \<le> q' - of_int \<lfloor>q'\<rfloor>" using assms by simp
  with True show ?thesis by (auto simp: round_half_even_def Let_def)
next
  case False
  with assms have "\<lfloor>q\<rfloor> < \<lfloor>q'\<rfloor>" by (simp add: floor_mono le_neq_trans)
  then have "round_half_even q \<le> \<lfloor>q'\<rfloor>" using rhe_bounds [of q] by linarith
  then show ?thesis using rhe_bounds [of q'] by linarith
qed

lemma rhe_ge_int: "of_int n \<le> q \<Longrightarrow> n \<le> round_half_even q"
  using rhe_mono [of "of_int n" q] by simp

lemma rhe_le_int: "q \<le> of_int n \<Longrightarrow> round_half_even q \<le> n"
  using rhe_mono [of q "of_int n"] by simp

lemma ulp_pos: "0 < ulp a"
  by (simp add: ulp_def)

lemma binade_ge: "-1022 \<le> binade a"
proof (cases "a < 2 powr (-1022)")
  case True then show ?thesis by (simp add: binade_def)
next
  case False
  then have a: "2 powr (-1022) \<le> a" by simp
  then have "0 < a" by (smt (verit) powr_gt_zero)
  have "log 2 (2 powr (-1022)) \<le> log 2 a"
    using a \<open>0 < a\<close> by (subst log_le_cancel_iff) simp_all
  then have "(-1022::real) \<le> log 2 a" by simp
  then have "(-1022::int) \<le> \<lfloor>log 2 a\<rfloor>" by (simp add: le_floor_iff)
  with False show ?thesis by (simp add: binade_def)
qed

lemma binade_normal:
  assumes "2 powr (-1022) \<le> a"
  shows "2 powr of_int (binade a) \<le> a \<and> a < 2 powr (of_int (binade a) + 1)"
proof -
  have "0 < a" using assms by (smt (verit) powr_gt_zero)
  have "binade a = \<lfloor>log 2 a\<rfloor>" using assms by (simp add: binade_def)
  moreover have "2 powr of_int \<lfloor>log 2 a\<rfloor> \<le> a \<and> a < 2 powr (of_int \<lfloor>log 2 a\<rfloor> + 1)"
    using floor_log_eq_powr_iff [of a 2 "\<lfloor>log 2 a\<rfloor>"] \<open>0 < a\<close> by simp
  ultimately show ?thesis by simp
qed

lemma binade_upper: "0 \<le> a \<Longrightarrow> a < 2 powr (of_int (binade a) + 1)"
proof (cases "a < 2 powr (-1022)")
  case True
  then have "binade a = -1022" by (simp add: binade_def)
  moreover have "(2::real) powr (-1022) \<le> 2 powr (-1021)" by (rule powr_mono) simp_all
  with True have "a < 2 powr (-1021)" by linarith
  ultimately show ?thesis by simp
next
  case False
  then show ?thesis using binade_normal [of a] by simp
qed

lemma binade_mono:
  assumes "0 \<le> a" "a \<le> b"
  shows "binade a \<le> binade b"
proof (cases "a < 2 powr (-1022)")
  case True
  then show ?thesis using binade_ge [of b] by (simp add: binade_def)
next
  case False
  then have a: "2 powr (-1022) \<le> a" by simp
  then have "0 < a" by (smt (verit) powr_gt_zero)
  with assms a have "log 2 a \<le> log 2 b" by (subst log_le_cancel_iff) simp_all
  then have "\<lfloor>log 2 a\<rfloor> \<le> \<lfloor>log 2 b\<rfloor>" by (rule floor_mono)
  with a assms show ?thesis by (simp add: binade_def)
qed

lemma round_mag_nonneg: "0 \<le> a \<Longrightarrow> 0 \<le> round_mag a"
proof -
  assume "0 \<le> a"
  then have "of_int 0 \<le> a / ulp a" using ulp_pos [of a] by simp
  then have "0 \<le> round_half_even (a / ulp a)" by (rule rhe_ge_int)
  then show ?thesis using ulp_pos [of a] by (simp add: round_mag_def)
qed

lemma ulp_scale: "2 powr (c::real) * 2 powr (e - 52) = 2 powr (e + (c - 52))"
  by (simp add: powr_add [symmetric] algebra_simps)

lemma round_mag_upper:
  assumes "0 \<le> a"
  shows "round_mag a \<le> 2 powr (of_int (binade a) + 1)"
proof -
  have "a / ulp a < 2 powr (of_int (binade a) + 1) / ulp a"
    using binade_upper [OF assms] ulp_pos [of a] by (simp add: divide_strict_right_mono)
  also have "2 powr (of_int (binade a) + 1) / ulp a = 2 powr 53"
    by (simp add: ulp_def powr_diff [symmetric])
  also have "(2::real) powr 53 = of_int (2 ^ 53)" by simp
  finally have "round_half_even (a / ulp a) \<le> 2 ^ 53" by (intro rhe_le_int) simp
  then have "of_int (round_half_even (a / ulp a)) * ulp a \<le> of_int (2 ^ 53) * ulp a"
    using ulp_pos [of a] by (intro mult_right_mono) simp_all
  also have "of_int (2 ^ 53) * ulp a = 2 powr 53 * ulp a" by simp
  also have "\<dots> = 2 powr (of_int (binade a) + 1)"
    using ulp_scale [of 53 "of_int (binade a)"] by (simp add: ulp_def add.commute)
  finally show ?thesis by (simp add: round_mag_def)
qed

lemma round_mag_lower:
  assumes "2 powr (-1022) \<le> a"
  shows "2 powr of_int (binade a) \<le> round_mag a"
proof -
  have "2 powr of_int (binade a) / ulp a \<le> a / ulp a"
    using binade_normal [OF assms] ulp_pos [of a] by (simp add: divide_right_mono)
  moreover have "2 powr of_int (binade a) / ulp a = 2 powr 52"
    by (simp add: ulp_def powr_diff [symmetric])
  moreover have "(2::real) powr 52 = of_int (2 ^ 52)" by simp
  ultimately have "2 ^ 52 \<le> round_half_even (a / ulp a)" by (intro rhe_ge_int) simp
  then have "of_int (2 ^ 52) * ulp a \<le> of_int (round_half_even (a / ulp a)) * ulp a"
    using ulp_pos [of a] by (intro mult_right_mono) simp_all
  moreover have "of_int (2 ^ 52) * ulp a = 2 powr 52 * ulp a" by simp
  moreover have "2 powr 52 * ulp a = 2 powr of_int (binade a)"
    using ulp_scale [of 52 "of_int (binade a)"] by (simp add: ulp_def)
  ultimately show ?thesis by (simp add: round_mag_def)
qed

lemma round_mag_mono:
  assumes "0 \<le> a" "a \<le> b"
  shows "round_mag a \<le> round_mag b"
proof (cases "binade a = binade b")
  case True
  then have u: "ulp a = ulp b" by (simp add: ulp_def)
  have "a / ulp b \<le> b / ulp b" using assms ulp_pos [of b] by (simp add: divide_right_mono)
  then have "round_half_even (a / ulp b) \<le> round_half_even (b / ulp b)" by (rule rhe_mono)
  then show ?thesis using ulp_pos [of b] by (simp add: round_mag_def u)
next
  case False
  with binade_mono [OF assms] have lt: "binade a < binade b" by simp
  then have "-1022 < binade b" using binade_ge [of a] by linarith
  then have "\<not> b < 2 powr (-1022)" by (auto simp: binade_def)
  then have "2 powr of_int (binade b) \<le> round_mag b" by (intro round_mag_lower) simp
  moreover have "(2::real) powr (of_int (binade a) + 1) \<le> 2 powr of_int (binade b)"
    using lt by (intro powr_mono) simp_all
  ultimately show ?thesis using round_mag_upper [OF assms(1)] by linarith
qed

lemma rhe_zero [simp]: "round_half_even 0 = 0"
  by (simp add: round_half_even_def)

lemma round_mag_zero [simp]: "round_mag 0 = 0"
  by (simp add: round_mag_def)

lemma round64_zero [simp]: "round64 0 = Fin 0"
  by (simp add: round64_def)

lemma round64_pos:
  "0 < x \<Longrightarrow> round64 x = (if 2 ^ 1024 \<le> round_mag x then PInf else Fin (round_mag x))"
  by (simp add: round64_def)

lemma round64_neg:
  "x < 0 \<Longrightarrow> round64 x = (if 2 ^ 1024 \<le> round_mag (- x) then NInf else Fin (- round_mag (- x)))"
  by (simp add: round64_def)

lemma round64_mono:
  assumes "x \<le> y"
  shows "flt_le (round64 x) (round64 y)"
proof -
  consider "0 < x" | "x = 0" "0 < y" | "x = 0" "y = 0" | "x < 0" "0 < y" | "x < 0" "y = 0" | "y < 0"
    using assms by linarith
  then show ?thesis
  proof cases
    case 1
    then have "0 < y" using assms by simp
    moreover have "round_mag x \<le> round_mag y" using 1 assms by (intro round_mag_mono) simp_all
    ultimately show ?thesis using 1 by (simp add: round64_pos)
  next
    case 2
    then show ?thesis using round_mag_nonneg [of y] by (simp add: round64_pos)
  next
    case 3
    then show ?thesis by simp
  next
    case 4
    then show ?thesis using round_mag_nonneg [of y] round_mag_nonneg [of "- x"]
      by (simp add: round64_pos round64_neg)
  next
    case 5
    then show ?thesis using round_mag_nonneg [of "- x"] by (simp add: round64_neg)
  next
    case 6
    then have "x < 0" using assms by simp
    moreover have "round_mag (- y) \<le> round_mag (- x)" using 6 assms by (intro round_mag_mono) simp_all
    ultimately show ?thesis using 6 by (simp add: round64_neg)
  qed
qed

lemma round_mag_exact:
  assumes m: "0 < m" "m < 2 ^ 53" and k: "-1074 \<le> k"
  shows "round_mag (of_int m * 2 powr of_int k) = of_int m * 2 powr of_int k"
proof -
  let ?a = "of_int m * 2 powr of_int k :: real"
  have apos: "0 < ?a" using m by simp
  have alt: "?a < 2 powr (53 + of_int k)"
  proof -
    have "real_of_int m < 2 powr 53" using m by simp
    then have "?a < 2 powr 53 * 2 powr of_int k" by (simp add: mult_strict_right_mono)
    then show ?thesis by (simp only: powr_add [symmetric])
  qed
  have e: "binade ?a - 52 \<le> k"
  proof (cases "?a < 2 powr (-1022)")
    case True
    then show ?thesis using k by (simp add: binade_def)
  next
    case False
    then have "2 powr of_int (binade ?a) \<le> ?a" using binade_normal [of ?a] by simp
    with alt have "(2::real) powr of_int (binade ?a) < 2 powr (53 + of_int k)" by linarith
    then have "real_of_int (binade ?a) < 53 + of_int k" by simp
    then show ?thesis by linarith
  qed
  define n where "n = nat (k - (binade ?a - 52))"
  have kn: "of_int k = (of_int (binade ?a) - 52) + real n" using e by (simp add: n_def)
  have "(2::real) powr of_int k = 2 powr ((of_int (binade ?a) - 52) + real n)"
    by (rule arg_cong [where f = "\<lambda>t. 2 powr t", OF kn])
  also have "\<dots> = ulp ?a * 2 ^ n"
    by (simp only: powr_add ulp_def powr_realpow [of 2 n, simplified])
  finally have pk: "2 powr of_int k = ulp ?a * 2 ^ n" .
  define u where "u = ulp ?a"
  define p where "p = (2::real) powr of_int k"
  have up: "0 < u" "p = u * 2 ^ n" using ulp_pos [of ?a] pk by (simp_all only: u_def p_def)
  have q: "of_int m * p / u = of_int (m * 2 ^ n)" using up by simp
  have "round_mag ?a = of_int (round_half_even (of_int m * p / u)) * u"
    by (simp only: round_mag_def u_def p_def)
  also have "\<dots> = of_int (m * 2 ^ n) * u" by (simp only: q rhe_int)
  also have "\<dots> = of_int m * p" using up by simp
  finally show ?thesis by (simp only: p_def)
qed

lemma float64_bound:
  assumes "\<bar>m\<bar> < 2 ^ 53" "k \<le> 971"
  shows "\<bar>of_int m * 2 powr of_int k\<bar> < (2::real) ^ 1024"
proof -
  have "(2::real) powr of_int k \<le> 2 powr 971" using assms by (intro powr_mono) simp_all
  moreover have "\<bar>real_of_int m\<bar> < 2 powr 53" using assms by (simp flip: of_int_abs)
  ultimately have "\<bar>real_of_int m\<bar> * 2 powr of_int k < 2 powr 53 * 2 powr 971"
    by (intro mult_less_le_imp_less) simp_all
  also have "(2::real) powr 53 * 2 powr 971 = 2 ^ 1024"
    unfolding powr_add [symmetric] by simp
  finally show ?thesis by (simp add: abs_mult)
qed

lemma round64_float:
  assumes "is_float64 x"
  shows "round64 x = Fin x"
proof -
  from assms obtain m k where mk: "\<bar>m\<bar> < 2 ^ 53" "-1074 \<le> k" "k \<le> 971"
    and x: "x = of_int m * 2 powr of_int k" by (auto simp: is_float64_def)
  have small: "\<bar>x\<bar> < 2 ^ 1024" unfolding x using mk by (intro float64_bound) simp_all
  consider "m = 0" | "0 < m" | "m < 0" by linarith
  then show ?thesis
  proof cases
    case 1
    then show ?thesis by (simp add: x)
  next
    case 2
    then have "round_mag x = x" unfolding x using mk by (intro round_mag_exact) simp_all
    moreover have "0 < x" using 2 by (simp add: x)
    ultimately show ?thesis using small by (simp add: round64_pos)
  next
    case 3
    then have "round_mag (of_int (- m) * 2 powr of_int k) = of_int (- m) * 2 powr of_int k"
      using mk by (intro round_mag_exact) simp_all
    then have "round_mag (- x) = - x" by (simp add: x)
    moreover have "x < 0" using 3 by (simp add: x mult_neg_pos)
    ultimately show ?thesis using small by (simp add: round64_neg)
  qed
qed

lemma rhe_near:
  assumes "of_int n - 1 / 2 < q" "q < of_int n + 1 / 2"
  shows "round_half_even q = n"
proof (cases "of_int n \<le> q")
  case True
  then have "\<lfloor>q\<rfloor> = n" using assms by (intro floor_unique) simp_all
  then show ?thesis using assms by (simp add: round_half_even_def Let_def)
next
  case False
  then have "\<lfloor>q\<rfloor> = n - 1" using assms by (intro floor_unique) simp_all
  then show ?thesis using assms False by (simp add: round_half_even_def Let_def)
qed

lemma rhe_tie_even:
  assumes "q = of_int f + 1 / 2" "even f"
  shows "round_half_even q = f"
proof -
  have "\<lfloor>q\<rfloor> = f" using assms by (intro floor_unique) simp_all
  then show ?thesis using assms by (simp add: round_half_even_def Let_def)
qed

lemma binade_eq:
  assumes "2 powr of_int e \<le> a" "a < 2 powr (of_int e + 1)" "-1022 \<le> e"
  shows "binade a = e"
proof -
  have "0 < a" using assms(1) by (smt (verit) powr_gt_zero)
  have "(2::real) powr (-1022) \<le> 2 powr of_int e" using assms(3) by (intro powr_mono) simp_all
  then have "\<not> a < 2 powr (-1022)" using assms(1) by linarith
  moreover have "\<lfloor>log 2 a\<rfloor> = e"
    using floor_log_eq_powr_iff [of a 2 e] \<open>0 < a\<close> assms by simp
  ultimately show ?thesis by (simp add: binade_def)
qed

lemma round64_at:
  assumes "2 powr of_int e \<le> x" "x < 2 powr (of_int e + 1)" "-1022 \<le> e"
    and "round_half_even (x / 2 powr (of_int e - 52)) = n"
    and "real_of_int n * 2 powr (of_int e - 52) < 2 ^ 1024"
  shows "round64 x = Fin (of_int n * 2 powr (of_int e - 52))"
proof -
  have "0 < x" using assms(1) by (smt (verit) powr_gt_zero)
  have "binade x = e" using assms by (intro binade_eq) simp_all
  then have "round_mag x = of_int n * 2 powr (of_int e - 52)"
    using assms(4) by (simp add: round_mag_def ulp_def)
  then show ?thesis using \<open>0 < x\<close> assms(5) by (simp add: round64_pos)
qed

lemma round64_underflow:
  assumes "\<bar>x\<bar> \<le> 2 powr (-1075)"
  shows "round64 x = Fin 0"
proof -
  let ?a = "\<bar>x\<bar>"
  have lt: "(2::real) powr (-1075) < 2 powr (-1022)" by (intro powr_less_mono) simp_all
  with assms have "?a < 2 powr (-1022)" by linarith
  then have b: "binade ?a = -1022" by (simp add: binade_def)
  have u: "ulp ?a = 2 powr (-1074)" by (simp add: ulp_def b)
  have "?a / 2 powr (-1074) \<le> 2 powr (-1075) / 2 powr (-1074)"
    using assms by (intro divide_right_mono) simp_all
  also have "(2::real) powr (-1075) / 2 powr (-1074) = 2 powr (-1)"
    by (simp only: powr_diff [symmetric]) simp
  finally have "?a / 2 powr (-1074) \<le> 1 / 2" by simp
  moreover define q where "q = ?a / 2 powr (-1074)"
  ultimately have q: "q \<le> 1 / 2" by simp
  have q0: "0 \<le> q" by (simp add: q_def)
  have "\<lfloor>q\<rfloor> = 0" by (rule floor_unique) (use q q0 in simp_all)
  then have "round_half_even q = 0"
    using q by (simp add: round_half_even_def Let_def)
  then have "round_half_even (?a / ulp ?a) = 0" by (simp only: u q_def)
  then have "round_mag ?a = 0" by (simp add: round_mag_def)
  then show ?thesis by (simp add: round64_def)
qed

section \<open>Facts about floats\<close>

text \<open>
  The constants of \<^verbatim>\<open>math.degrees\<close>: \<^verbatim>\<open>180.0 / math.pi\<close> as a float, and the degrees
  of \<^verbatim>\<open>math.pi\<close> and of its half.
\<close>

lemma rad_to_deg_val: "rad_to_deg = Fin (1007958012753983 / 2 ^ 44)"
proof -
  have a: "2 powr of_int 5 \<le> 180 / pi_f" by (simp add: pi_f_def)
  have b: "180 / pi_f < 2 powr (of_int 5 + 1)" by (simp add: pi_f_def)
  have c: "round_half_even (180 / pi_f / 2 powr (of_int 5 - 52)) = 1007958012753983 * 8"
    by (rule rhe_near) (simp_all add: pi_f_def powr_neg_numeral)
  have d: "of_int (1007958012753983 * 8) * 2 powr (of_int 5 - 52) < (2::real) ^ 1024"
    by (simp add: powr_neg_numeral)
  from round64_at [OF a b _ c d] show ?thesis by (simp add: rad_to_deg_def powr_neg_numeral)
qed

lemma degrees_pi: "math_degrees (Fin pi_f) = Fin 180"
proof -
  let ?x = "pi_f * (1007958012753983 / 2 ^ 44)"
  have a: "2 powr of_int 7 \<le> ?x" by (simp add: pi_f_def)
  have b: "?x < 2 powr (of_int 7 + 1)" by (simp add: pi_f_def)
  have c: "round_half_even (?x / 2 powr (of_int 7 - 52)) = 180 * 2 ^ 45"
    by (rule rhe_near) (simp_all add: pi_f_def powr_neg_numeral)
  have d: "of_int (180 * 2 ^ 45) * 2 powr (of_int 7 - 52) < (2::real) ^ 1024"
    by (simp add: powr_neg_numeral)
  from round64_at [OF a b _ c d] have "round64 ?x = Fin 180" by (simp add: powr_neg_numeral)
  then show ?thesis by (simp add: math_degrees_def rad_to_deg_val)
qed

lemma degrees_half_pi: "math_degrees (Fin (pi_f / 2)) = Fin 90"
proof -
  let ?x = "pi_f / 2 * (1007958012753983 / 2 ^ 44)"
  have a: "2 powr of_int 6 \<le> ?x" by (simp add: pi_f_def)
  have b: "?x < 2 powr (of_int 6 + 1)" by (simp add: pi_f_def)
  have c: "round_half_even (?x / 2 powr (of_int 6 - 52)) = 90 * 2 ^ 46"
    by (rule rhe_near) (simp_all add: pi_f_def powr_neg_numeral)
  have d: "of_int (90 * 2 ^ 46) * 2 powr (of_int 6 - 52) < (2::real) ^ 1024"
    by (simp add: powr_neg_numeral)
  from round64_at [OF a b _ c d] have "round64 ?x = Fin 90" by (simp add: powr_neg_numeral)
  then show ?thesis by (simp add: math_degrees_def rad_to_deg_val)
qed

text \<open>
  Small integers and their halves are floats, and so round to themselves.
\<close>

lemma is_float64_of_int: "\<bar>n\<bar> < 2 ^ 53 \<Longrightarrow> is_float64 (of_int n)"
  unfolding is_float64_def by (rule exI [of _ n], rule exI [of _ 0]) simp

lemma is_float64_numeral [simp]: "(numeral w :: int) < 2 ^ 53 \<Longrightarrow> is_float64 (numeral w)"
  using is_float64_of_int [of "numeral w"] by simp

lemma is_float64_0 [simp]: "is_float64 0"
  using is_float64_of_int [of 0] by simp

lemma is_float64_1 [simp]: "is_float64 1"
  using is_float64_of_int [of 1] by simp

lemma is_float64_neg: "is_float64 x \<Longrightarrow> is_float64 (- x)"
  unfolding is_float64_def
  by (elim exE conjE, rule_tac x = "- m" in exI, rule_tac x = k in exI) simp

lemma is_float64_pow2: "-1074 \<le> k \<Longrightarrow> k \<le> 971 \<Longrightarrow> \<bar>m\<bar> < 2 ^ 53 \<Longrightarrow> is_float64 (of_int m * 2 powr of_int k)"
  unfolding is_float64_def by blast

lemma round64_numeral [simp]: "(numeral w :: int) < 2 ^ 53 \<Longrightarrow> round64 (numeral w) = Fin (numeral w)"
  by (simp add: round64_float)

lemma round64_neg_numeral [simp]:
  "(numeral w :: int) < 2 ^ 53 \<Longrightarrow> round64 (- numeral w) = Fin (- numeral w)"
  by (simp add: round64_float is_float64_neg)

lemma round64_1 [simp]: "round64 1 = Fin 1"
  by (simp add: round64_float)

lemma round64_neg_7_2: "round64 (- (7 / 2)) = Fin (- (7 / 2))"
proof -
  have "is_float64 (of_int (-7) * 2 powr of_int (-1))" by (rule is_float64_pow2) simp_all
  then have "is_float64 (- (7 / 2))" by (simp add: powr_neg_one)
  then show ?thesis by (rule round64_float)
qed

lemma round64_overflow:
  assumes "2 ^ 1024 \<le> x"
  shows "round64 x = PInf"
proof -
  have pos: "0 < x" using assms by (smt (verit) zero_less_power)
  have p: "(2::real) powr of_int 1024 = 2 ^ 1024" by (simp add: powr_realpow [symmetric])
  have "binade (2 ^ 1024) = 1024"
    by (rule binade_eq) (simp_all add: p)
  moreover have "binade (2 ^ 1024) \<le> binade x" using assms by (intro binade_mono) simp_all
  ultimately have "(2::real) powr of_int 1024 \<le> 2 powr of_int (binade x)"
    by (intro powr_mono) simp_all
  moreover have "2 powr (-1022) \<le> x"
  proof -
    have "(2::real) powr (-1022) \<le> 2 powr of_int 1024" by (intro powr_mono) simp_all
    with assms p show ?thesis by linarith
  qed
  then have "2 powr of_int (binade x) \<le> round_mag x" by (rule round_mag_lower)
  ultimately have "2 ^ 1024 \<le> round_mag x" using p by linarith
  then show ?thesis using pos by (simp add: round64_pos)
qed

text \<open>
  A float below the rounded sum is below the exact sum: rounding is monotone and
  leaves a float where it is.
\<close>

lemma flt_less_round64:
  assumes "is_float64 c" "flt_less (Fin c) (round64 s)"
  shows "c < s"
proof (rule ccontr)
  assume "\<not> c < s"
  then have "flt_le (round64 s) (round64 c)" by (intro round64_mono) simp
  then have "flt_le (round64 s) (Fin c)" using assms(1) by (simp add: round64_float)
  with assms(2) show False by (cases "round64 s") simp_all
qed

text \<open>
  The value \<open>2 powr (-600)\<close>: it is a float, twice it is a float, and its square
  and twice its square round to zero.
\<close>

lemma tiny_float: "is_float64 (2 powr (-600))"
  using is_float64_pow2 [of "-600" 1] by simp

lemma tiny_double: "round64 (2 powr (-600) + 2 powr (-600)) = Fin (2 * 2 powr (-600))"
proof -
  have "is_float64 (of_int 2 * 2 powr of_int (-600))" by (rule is_float64_pow2) simp_all
  then have "round64 (2 * 2 powr (-600)) = Fin (2 * 2 powr (-600))"
    using round64_float by simp
  then show ?thesis by simp
qed

lemma tiny_twice: "round64 (2 * 2 powr (-600)) = Fin (2 * 2 powr (-600))"
  using tiny_double by simp

lemma tiny_square: "round64 (2 powr (-600) * 2 powr (-600)) = Fin 0"
proof (rule round64_underflow)
  have "(2::real) powr (-600) * 2 powr (-600) = 2 powr (-1200)"
    by (simp only: powr_add [symmetric]) simp
  moreover have "(2::real) powr (-1200) \<le> 2 powr (-1075)" by (intro powr_mono) simp_all
  ultimately show "\<bar>2 powr (-600) * 2 powr (-600)\<bar> \<le> (2::real) powr (-1075)" by simp
qed

lemma tiny_product: "round64 (2 * 2 powr (-600) * 2 powr (-600)) = Fin 0"
proof (rule round64_underflow)
  have "(2::real) * 2 powr (-600) * 2 powr (-600) = 2 powr (-1199)"
  proof -
    have "(2::real) * 2 powr (-600) * 2 powr (-600) = 2 powr 1 * 2 powr (-600) * 2 powr (-600)"
      by simp
    also have "\<dots> = 2 powr (-1199)" by (simp only: powr_add [symmetric]) simp
    finally show ?thesis .
  qed
  moreover have "(2::real) powr (-1199) \<le> 2 powr (-1075)" by (intro powr_mono) simp_all
  ultimately show "\<bar>2 * 2 powr (-600) * 2 powr (-600)\<bar> \<le> (2::real) powr (-1075)" by simp
qed

section \<open>Facts about the geometry solver\<close>

text \<open>
The arrangements of three values.
\<close>

lemma mset_two_cases:
  "mset [b, c] = mset [y, z] \<Longrightarrow> (b = y \<and> c = z) \<or> (b = z \<and> c = y)"
  by (auto simp: add_eq_conv_ex)

lemma mset_three_cases:
  assumes eq: "mset [a, b, c] = mset [x, y, z]"
  shows "(a, b, c) \<in> {(x, y, z), (x, z, y), (y, x, z), (y, z, x), (z, x, y), (z, y, x)}"
proof -
  have "a \<in> set [x, y, z]" using mset_eq_setD [OF eq] by auto
  then consider "a = x" | "a = y" | "a = z" by auto
  then show ?thesis
  proof cases
    case 1
    with eq have "mset [b, c] = mset [y, z]" by simp
    from mset_two_cases [OF this] 1 show ?thesis by auto
  next
    case 2
    have "mset [x, y, z] = mset [y, x, z]" by simp
    with eq 2 have "mset [b, c] = mset [x, z]" by (simp add: add_mset_commute)
    from mset_two_cases [OF this] 2 show ?thesis by auto
  next
    case 3
    have "mset [x, y, z] = mset [z, x, y]" by simp
    with eq 3 have "mset [b, c] = mset [x, y]" by (simp add: add_mset_commute)
    from mset_two_cases [OF this] 3 show ?thesis by auto
  qed
qed

lemma strict_triangle_inequalities_iff:
  "strict_triangle_inequalities a b c \<longleftrightarrow> c < a + b \<and> b < a + c \<and> a < b + c"
proof
  assume s: "strict_triangle_inequalities a b c"
  have all: "\<And>x y z. mset [x, y, z] = mset [a, b, c] \<Longrightarrow> z < x + y"
    using s unfolding strict_triangle_inequalities_def by blast
  have p1: "mset [a, b, c] = mset [a, b, c]" by simp
  have p2: "mset [a, c, b] = mset [a, b, c]" by simp
  have p3: "mset [b, c, a] = mset [a, b, c]" by simp
  show "c < a + b \<and> b < a + c \<and> a < b + c"
    using all [OF p1] all [OF p2] all [OF p3] by simp
next
  assume v: "c < a + b \<and> b < a + c \<and> a < b + c"
  show "strict_triangle_inequalities a b c"
    unfolding strict_triangle_inequalities_def
  proof (intro allI impI)
    fix x y z :: real
    assume "mset [x, y, z] = mset [a, b, c]"
    from mset_three_cases [OF this]
    consider "x = a \<and> y = b \<and> z = c" | "x = a \<and> y = c \<and> z = b"
      | "x = b \<and> y = a \<and> z = c" | "x = b \<and> y = c \<and> z = a"
      | "x = c \<and> y = a \<and> z = b" | "x = c \<and> y = b \<and> z = a"
      by simp blast
    then show "z < x + y" using v by cases linarith+
  qed
qed

text \<open>
  \<^verbatim>\<open>validate_triangle\<close> accepts finite sides only, and on floats its three
  comparisons imply the exact inequalities.
\<close>

lemma validate_triangle_finite:
  assumes "validate_triangle x y z"
  shows "\<exists>a b c. x = Fin a \<and> y = Fin b \<and> z = Fin c"
  using assms by (cases x; cases y; cases z) (simp_all add: validate_triangle_def)

lemma validate_triangle_sums:
  assumes "is_float64 a" "is_float64 b" "is_float64 c"
    and "validate_triangle (Fin a) (Fin b) (Fin c)"
  shows "c < a + b \<and> b < a + c \<and> a < b + c"
  using assms flt_less_round64 by (simp add: validate_triangle_def)

lemma validate_3_4_5: "validate_triangle (Fin 3) (Fin 4) (Fin 5)"
  and validate_1_1_5: "\<not> validate_triangle (Fin 1) (Fin 1) (Fin 5)"
  and validate_0_0_0: "\<not> validate_triangle (Fin 0) (Fin 0) (Fin 0)"
  and validate_1_1_3: "\<not> validate_triangle (Fin 1) (Fin 1) (Fin 3)"
  by (simp_all add: validate_triangle_def)

text \<open>
  The clamp always yields a finite value in \<open>[-1, 1]\<close>, also for an infinite or NaN
  quotient; the degrees of a value between zero and \<^verbatim>\<open>math.pi\<close> lie between 0 and 180;
  and with both sides at the vertex non-zero \<^verbatim>\<open>compute_angle\<close> raises
  \<^verbatim>\<open>OverflowError\<close> or \<^verbatim>\<open>ZeroDivisionError\<close> or returns an angle.
\<close>

lemma clamp_range:
  "\<exists>c. py_max (Fin (-1)) (py_min (Fin 1) q) = Fin c \<and> -1 \<le> c \<and> c \<le> 1"
  by (cases q) (auto simp: py_max_def py_min_def)

lemma math_degrees_range:
  assumes "0 \<le> r" "r \<le> pi_f"
  shows "\<exists>\<theta>. math_degrees (Fin r) = Fin \<theta> \<and> 0 \<le> \<theta> \<and> \<theta> \<le> 180"
proof -
  let ?rd = "1007958012753983 / 2 ^ 44 :: real"
  have eq: "math_degrees (Fin x) = round64 (x * ?rd)" for x
    by (simp add: math_degrees_def rad_to_deg_val)
  have "flt_le (round64 (0 * ?rd)) (round64 (r * ?rd))"
    using assms(1) by (intro round64_mono mult_right_mono) simp_all
  then have lo: "flt_le (Fin 0) (math_degrees (Fin r))" by (simp add: eq)
  have "flt_le (round64 (r * ?rd)) (round64 (pi_f * ?rd))"
    using assms(2) by (intro round64_mono mult_right_mono) simp_all
  then have hi: "flt_le (math_degrees (Fin r)) (Fin 180)"
    using degrees_pi by (simp add: eq)
  from lo hi show ?thesis by (cases "math_degrees (Fin r)") simp_all
qed

lemma compute_angle_nonzero:
  assumes "dxa \<noteq> Fin 0" "dxb \<noteq> Fin 0"
    and "py_pow2 lib dxa = Inr a2" "py_pow2 lib dxb = Inr b2" "py_pow2 lib dab = Inr c2"
    and "fmul (fmul (Fin 2) dxa) dxb \<noteq> Fin 0"
    and "py_max (Fin (-1)) (py_min (Fin 1)
           (fdiv (fsub (fadd a2 b2) c2) (fmul (fmul (Fin 2) dxa) dxb))) = Fin c"
  shows "compute_angle lib dxa dxb dab = Inr (Some (math_degrees (Fin (libm_acos lib c))))"
proof -
  from clamp_range [of "fdiv (fsub (fadd a2 b2) c2) (fmul (fmul (Fin 2) dxa) dxb)"] assms(7)
  have "-1 \<le> c \<and> c \<le> 1" by simp
  with assms show ?thesis by (simp add: compute_angle_def py_div_def)
qed

lemma py_pow2_cases:
  "py_pow2 lib x = Inl OverflowError \<or> (\<exists>r. py_pow2 lib x = Inr r)"
  by (cases x; cases "libm_pow2 lib (case x of Fin v \<Rightarrow> v | _ \<Rightarrow> 0)") simp_all

lemma compute_angle_outcomes:
  assumes "dxa \<noteq> Fin 0" "dxb \<noteq> Fin 0"
  shows "compute_angle lib dxa dxb dab = Inl OverflowError
       \<or> compute_angle lib dxa dxb dab = Inl ZeroDivisionError
       \<or> (\<exists>\<theta>. compute_angle lib dxa dxb dab = Inr (Some \<theta>))"
proof -
  consider "py_pow2 lib dxa = Inl OverflowError" | "py_pow2 lib dxb = Inl OverflowError"
    | "py_pow2 lib dab = Inl OverflowError"
    | a2 b2 c2 where "py_pow2 lib dxa = Inr a2" "py_pow2 lib dxb = Inr b2" "py_pow2 lib dab = Inr c2"
    using py_pow2_cases [of lib dxa] py_pow2_cases [of lib dxb] py_pow2_cases [of lib dab] by blast
  then show ?thesis
  proof cases
    case 1 then show ?thesis using assms by (simp add: compute_angle_def)
  next
    case 2 then show ?thesis using assms py_pow2_cases [of lib dxa]
      by (auto simp: compute_angle_def)
  next
    case 3 then show ?thesis using assms py_pow2_cases [of lib dxa] py_pow2_cases [of lib dxb]
      by (auto simp: compute_angle_def)
  next
    case 4
    show ?thesis
    proof (cases "fmul (fmul (Fin 2) dxa) dxb = Fin 0")
      case True
      with 4 assms show ?thesis by (simp add: compute_angle_def py_div_def)
    next
      case False
      obtain c where "py_max (Fin (-1)) (py_min (Fin 1)
           (fdiv (fsub (fadd a2 b2) c2) (fmul (fmul (Fin 2) dxa) dxb))) = Fin c"
        using clamp_range by blast
      from compute_angle_nonzero [OF assms 4 False this] show ?thesis by simp
    qed
  qed
qed

text \<open>
Runs on the sample library.
\<close>

lemmas sample_simps = sample_lib_def sample_decode_def sample_strip_def sample_loads_def
  sample_dumps_def sample_float_def is_space_def parse_line_def send_line_def

lemmas geometry_simps = compute_angle_def py_div_def py_min_def py_max_def fsub_def
  sample_lib_def sample_pow2_def sample_acos_def

lemma compute_angle_3_4_5: "compute_angle sample_lib (Fin 3) (Fin 4) (Fin 5) = Inr (Some (Fin 90))"
  by (simp add: geometry_simps degrees_half_pi)

lemma compute_angle_1_1_3: "compute_angle sample_lib (Fin 1) (Fin 1) (Fin 3) = Inr (Some (Fin 180))"
  by (simp add: geometry_simps round64_neg_7_2 degrees_pi)

section \<open>Facts about the two programs\<close>

text \<open>
The branches of \<^verbatim>\<open>fetch_dxb_from_slave\<close> on an object.
\<close>

lemma fetch_timeout: "snd (fetch_dxb_from_slave lib []) = Inl TimeoutError"
  by (simp add: fetch_dxb_from_slave_def)

lemma fetch_error:
  assumes "raw \<noteq> []" "parse_line lib raw = Inr (JObject kvs)" "map_of kvs ''error'' = Some v"
  shows "snd (fetch_dxb_from_slave lib raw) =
           Inl (RuntimeError (''Slave returned error: '' @ py_format lib v))"
  using assms by (simp add: fetch_dxb_from_slave_def)

lemma fetch_distance:
  assumes "raw \<noteq> []" "parse_line lib raw = Inr (JObject kvs)" "map_of kvs ''error'' = None"
    "map_of kvs ''dxb'' = Some v"
  shows "snd (fetch_dxb_from_slave lib raw) = py_float lib v"
  using assms by (simp add: fetch_dxb_from_slave_def)

text \<open>
  The branches of one pass of the Responder's loop: a line that does not parse, an
  object without the command, the command itself, and a parsed value that is not an
  object, on which \<^verbatim>\<open>request.get\<close> raises \<^verbatim>\<open>AttributeError\<close>.
\<close>

lemma slave_iteration_bad:
  assumes "raw \<noteq> []" "parse_line lib raw = Inl e" "e = JSONDecodeError \<or> e = UnicodeDecodeError"
  shows "slave_iteration lib raw stdin = ([Print (Log_bad_data e)], Inr stdin)"
  using assms by (auto simp: slave_iteration_def)

lemma slave_iteration_other:
  assumes "raw \<noteq> []" "parse_line lib raw = Inr (JObject kvs)"
    "map_of kvs ''cmd'' \<noteq> Some (JString ''GET_DISTANCE'')"
  shows "slave_iteration lib raw stdin =
     ([Print (Log_request (JObject kvs)),
       Write (send_line lib (JObject [(''error'', JString ''unknown command'')])),
       Print Log_unknown], Inr stdin)"
  using assms by (auto simp: slave_iteration_def split: option.splits)

lemma slave_iteration_get_distance:
  assumes "raw \<noteq> []" "parse_line lib raw = Inr (JObject kvs)"
    "map_of kvs ''cmd'' = Some (JString ''GET_DISTANCE'')"
    "get_distance_from_user lib stdin = Inr (dxb, stdin')"
  shows "slave_iteration lib raw stdin =
     ([Print (Log_request (JObject kvs)),
       Write (send_line lib (JObject [(''dxb'', JFloat dxb)])),
       Print (Log_sent dxb)], Inr stdin')"
  using assms by (simp add: slave_iteration_def)

lemma slave_iteration_not_object:
  assumes "raw \<noteq> []" "parse_line lib raw = Inr v" "\<forall>kvs. v \<noteq> JObject kvs"
  shows "slave_iteration lib raw stdin = ([Print (Log_request v)], Inl AttributeError)"
  using assms by (cases v) (simp_all add: slave_iteration_def)

text \<open>
A pass that raises nothing is followed by the rest of the loop.
\<close>

lemma run_slave_continue:
  assumes "slave_iteration lib raw stdin = (out, Inr stdin')"
  shows "run_slave lib (raw # rest) stdin =
           (out @ fst (run_slave lib rest stdin'), snd (run_slave lib rest stdin'))"
  using assms by (simp split: prod.splits)

text \<open>
The line of 2000 opening brackets, on the sample library.
\<close>

lemma sample_bracket_line:
  "parse_line sample_lib (replicate 2000 (CHR ''['') @ [CHR 0x0A]) = Inl RecursionError"
proof -
  have n: "(2000::nat) = Suc (Suc 1998)" by simp
  have r: "replicate 2000 (CHR ''['') = CHR ''['' # CHR ''['' # replicate 1998 (CHR ''['')"
    by (simp only: n replicate.simps)
  have d: "sample_decode (replicate 2000 (CHR ''['') @ [CHR 0x0A])
             = Inr (replicate 2000 (CHR ''['') @ [CHR 0x0A])"
    by (simp add: sample_decode_def list_all_iff)
  have s: "sample_strip (replicate 2000 (CHR ''['') @ [CHR 0x0A]) = replicate 2000 (CHR ''['')"
    by (simp add: sample_strip_def is_space_def r)
  have l: "sample_loads (replicate 2000 (CHR ''['')) = Inl RecursionError"
    unfolding sample_loads_def by (subst (1 2 3 4 5) r) simp
  show ?thesis by (simp add: parse_line_def sample_lib_def d s l)
qed

section \<open>The geometry solver\<close>

text \<open>
  Claim C1 says that for all \<open>dXA > 0\<close>, \<open>dXB > 0\<close> and \<open>dAB \<ge> 0\<close> the function
  returns an angle. With the three sides \<open>2 ^ 600\<close> the first square overflows and
  \<^verbatim>\<open>compute_angle\<close> raises \<^verbatim>\<open>OverflowError\<close>.
\<close>

theorem compute_angle_overflow_counterexample:
  "is_float64 (2 ^ 600) \<and> flt_less (Fin 0) (Fin (2 ^ 600))
   \<and> compute_angle sample_lib (Fin (2 ^ 600)) (Fin (2 ^ 600)) (Fin (2 ^ 600)) = Inl OverflowError"
proof -
  have "is_float64 (of_int 1 * 2 powr of_int 600)" by (rule is_float64_pow2) simp_all
  then have f: "is_float64 (2 ^ 600)" by (simp add: powr_realpow [symmetric])
  have "(2::real) ^ 1024 \<le> 2 ^ 600 * 2 ^ 600"
    by (simp only: power_add [symmetric]) simp
  then have "round64 (2 ^ 600 * 2 ^ 600) = PInf" by (rule round64_overflow)
  then have "py_pow2 sample_lib (Fin (2 ^ 600)) = Inl OverflowError"
    by (simp add: sample_lib_def sample_pow2_def)
  then have "compute_angle sample_lib (Fin (2 ^ 600)) (Fin (2 ^ 600)) (Fin (2 ^ 600)) = Inl OverflowError"
    by (simp add: compute_angle_def)
  with f show ?thesis by simp
qed

text \<open>
  Claim C1, amended. For \<open>dXA > 0\<close>, \<open>dXB > 0\<close> and \<open>dAB \<ge> 0\<close> on which none of
  the three squares overflows and the float product \<open>2 * dXA * dXB\<close> is not zero,
  \<^verbatim>\<open>compute_angle\<close> raises nothing. It computes the quotient
  \<open>(dXA\<^sup>2 + dXB\<^sup>2 - dAB\<^sup>2) / (2 * dXA * dXB)\<close> in float arithmetic, clamps it to a
  finite value in \<open>[-1, 1]\<close> (a NaN quotient becomes 1.0), and returns the arccosine
  of that value in degrees. The value handed to \<^verbatim>\<open>math.acos\<close> is therefore never NaN
  and never outside its domain; and when the C library's \<^verbatim>\<open>acos\<close> returns a value
  between zero and \<^verbatim>\<open>math.pi\<close>, the angle returned is a finite float between 0 and
  180.
\<close>

theorem compute_angle_law_of_cosines:
  assumes "flt_less (Fin 0) dxa" and "flt_less (Fin 0) dxb" and "flt_le (Fin 0) dab"
    and "py_pow2 lib dxa = Inr a2" and "py_pow2 lib dxb = Inr b2" and "py_pow2 lib dab = Inr c2"
    and "fmul (fmul (Fin 2) dxa) dxb \<noteq> Fin 0"
  shows "\<exists>c. py_max (Fin (-1)) (py_min (Fin 1)
                (fdiv (fsub (fadd a2 b2) c2) (fmul (fmul (Fin 2) dxa) dxb))) = Fin c
            \<and> -1 \<le> c \<and> c \<le> 1
            \<and> compute_angle lib dxa dxb dab = Inr (Some (math_degrees (Fin (libm_acos lib c))))
            \<and> (0 \<le> libm_acos lib c \<and> libm_acos lib c \<le> pi_f \<longrightarrow>
                 (\<exists>\<theta>. compute_angle lib dxa dxb dab = Inr (Some (Fin \<theta>)) \<and> 0 \<le> \<theta> \<and> \<theta> \<le> 180))"
proof -
  obtain c where c: "py_max (Fin (-1)) (py_min (Fin 1)
      (fdiv (fsub (fadd a2 b2) c2) (fmul (fmul (Fin 2) dxa) dxb))) = Fin c" "-1 \<le> c" "c \<le> 1"
    using clamp_range by blast
  have nz: "dxa \<noteq> Fin 0" "dxb \<noteq> Fin 0" using assms(1,2) by auto
  have ca: "compute_angle lib dxa dxb dab = Inr (Some (math_degrees (Fin (libm_acos lib c))))"
    by (rule compute_angle_nonzero [OF nz assms(4-7) c(1)])
  have "\<exists>\<theta>. compute_angle lib dxa dxb dab = Inr (Some (Fin \<theta>)) \<and> 0 \<le> \<theta> \<and> \<theta> \<le> 180"
    if "0 \<le> libm_acos lib c \<and> libm_acos lib c \<le> pi_f"
    using math_degrees_range [of "libm_acos lib c"] that ca by auto
  with c ca show ?thesis by blast
qed

theorem compute_angle_law_of_cosines_witness:
  "flt_less (Fin 0) (Fin 3) \<and> flt_less (Fin 0) (Fin 4) \<and> flt_le (Fin 0) (Fin 5)
   \<and> py_pow2 sample_lib (Fin 3) = Inr (Fin 9) \<and> py_pow2 sample_lib (Fin 4) = Inr (Fin 16)
   \<and> py_pow2 sample_lib (Fin 5) = Inr (Fin 25)
   \<and> fmul (fmul (Fin 2) (Fin 3)) (Fin 4) = Fin 24
   \<and> libm_acos sample_lib 0 = pi_f / 2 \<and> 0 \<le> pi_f / 2 \<and> pi_f / 2 \<le> pi_f
   \<and> compute_angle sample_lib (Fin 3) (Fin 4) (Fin 5) = Inr (Some (Fin 90))"
proof -
  have p: "py_pow2 sample_lib (Fin 3) = Inr (Fin 9)" "py_pow2 sample_lib (Fin 4) = Inr (Fin 16)"
    "py_pow2 sample_lib (Fin 5) = Inr (Fin 25)"
    by (simp_all add: sample_lib_def sample_pow2_def)
  have m: "fmul (fmul (Fin 2) (Fin 3)) (Fin 4) \<noteq> Fin 0" by simp
  have a: "libm_acos sample_lib 0 = pi_f / 2" "0 \<le> pi_f / 2" "pi_f / 2 \<le> pi_f"
    by (simp_all add: sample_lib_def sample_acos_def pi_f_def)
  from compute_angle_law_of_cosines [OF _ _ _ p m, of] obtain c where
    c: "py_max (Fin (-1)) (py_min (Fin 1)
          (fdiv (fsub (fadd (Fin 9) (Fin 16)) (Fin 25)) (fmul (fmul (Fin 2) (Fin 3)) (Fin 4)))) = Fin c"
    and r: "compute_angle sample_lib (Fin 3) (Fin 4) (Fin 5) =
              Inr (Some (math_degrees (Fin (libm_acos sample_lib c))))"
    by auto
  from c have "c = 0" by (simp add: py_max_def py_min_def fsub_def)
  with r a show ?thesis using p by (simp add: degrees_half_pi)
qed




text \<open>
  Claim C4. Whatever the other arguments are, \<^verbatim>\<open>compute_angle\<close> returns \<^verbatim>\<open>None\<close>
  when \<open>dXA\<close> is zero or \<open>dXB\<close> is zero.
\<close>

theorem compute_angle_zero_side:
  "dxa = Fin 0 \<or> dxb = Fin 0 \<Longrightarrow> compute_angle lib dxa dxb dab = Inr None"
  by (simp add: compute_angle_def)

theorem compute_angle_zero_side_witness:
  "(Fin 0 = Fin 0 \<or> Fin 7 = Fin 0) \<and> compute_angle sample_lib (Fin 0) (Fin 7) (Fin 2) = Inr None
   \<and> compute_angle sample_lib (Fin 7) (Fin 0) (Fin 2) = Inr None"
  using compute_angle_zero_side [of "Fin 0" "Fin 7" sample_lib "Fin 2"]
    compute_angle_zero_side [of "Fin 7" "Fin 0" sample_lib "Fin 2"] by simp




section \<open>The Initiator\<close>

text \<open>
  Claim C2. When the three distances fail \<^verbatim>\<open>validate_triangle\<close>, \<^verbatim>\<open>run_master\<close> hands
  \<^verbatim>\<open>None\<close> to \<^verbatim>\<open>print_results\<close> as the angle, whatever \<^verbatim>\<open>compute_angle\<close> would
  return on them. The run that follows is the one with \<open>dXA = 1\<close>, \<open>dXB = 1\<close>,
  \<open>dAB = 3\<close>, where \<^verbatim>\<open>compute_angle\<close> on its own returns 180 degrees.
\<close>

theorem run_master_invalid_triangle:
  assumes "prompt_distance lib stdin = Inr (dxa, stdin1)"
    and "prompt_distance lib stdin1 = Inr (dab, stdin2)"
    and "snd (fetch_dxb_from_slave lib raw) = Inr dxb"
    and "\<not> validate_triangle dxa dxb dab"
  shows "run_master lib stdin raw = Inr (dxa, dxb, dab, None)"
  using assms by (simp add: run_master_def)

theorem run_master_invalid_triangle_witness:
  \<open>\<not> validate_triangle (Fin 1) (Fin 1) (Fin 3)
   \<and> compute_angle sample_lib (Fin 1) (Fin 1) (Fin 3) = Inr (Some (Fin 180))
   \<and> run_master sample_lib [''1.0'', ''3.0''] (''{"dxb": 1.0}'' @ [CHR 0x0A])
       = Inr (Fin 1, Fin 1, Fin 3, None)\<close>
proof -
  have a: "prompt_distance sample_lib [''1.0'', ''3.0''] = Inr (Fin 1, [''3.0''])"
    by (simp add: sample_simps)
  have b: "prompt_distance sample_lib [''3.0''] = Inr (Fin 3, [])"
    by (simp add: sample_simps)
  have c: \<open>snd (fetch_dxb_from_slave sample_lib (''{"dxb": 1.0}'' @ [CHR 0x0A])) = Inr (Fin 1)\<close>
    by (simp add: sample_simps fetch_dxb_from_slave_def)
  have d: "\<not> validate_triangle (Fin 1) (Fin 1) (Fin 3)" by (rule validate_1_1_3)
  from run_master_invalid_triangle [OF a b c d] d compute_angle_1_1_3 show ?thesis by simp
qed

text \<open>
  Claim C6. One call of \<^verbatim>\<open>fetch_dxb_from_slave\<close> writes the request and then ends in
  one of three ways, decided by the line read: an empty read raises
  \<^verbatim>\<open>TimeoutError\<close>; an object with a reason under the key \<^verbatim>\<open>error\<close> raises
  \<^verbatim>\<open>RuntimeError\<close> whose text ends with that reason; an object without that key and
  with a float under \<^verbatim>\<open>dxb\<close> returns that float.
\<close>

theorem fetch_dxb_from_slave_outcomes:
  "fst (fetch_dxb_from_slave lib raw) = send_line lib (JObject [(''cmd'', JString ''GET_DISTANCE'')])
   \<and> (raw = [] \<longrightarrow> snd (fetch_dxb_from_slave lib raw) = Inl TimeoutError)
   \<and> (raw \<noteq> [] \<and> parse_line lib raw = Inr (JObject kvs) \<and> map_of kvs ''error'' = Some (JString reason)
        \<longrightarrow> snd (fetch_dxb_from_slave lib raw) = Inl (RuntimeError (''Slave returned error: '' @ reason)))
   \<and> (raw \<noteq> [] \<and> parse_line lib raw = Inr (JObject kvs) \<and> map_of kvs ''error'' = None
          \<and> map_of kvs ''dxb'' = Some (JFloat distance)
        \<longrightarrow> snd (fetch_dxb_from_slave lib raw) = Inr distance)"
proof (intro conjI impI)
  show "fst (fetch_dxb_from_slave lib raw) = send_line lib (JObject [(''cmd'', JString ''GET_DISTANCE'')])"
    by (simp add: fetch_dxb_from_slave_def)
next
  assume "raw = []" then show "snd (fetch_dxb_from_slave lib raw) = Inl TimeoutError"
    by (simp add: fetch_timeout)
next
  assume "raw \<noteq> [] \<and> parse_line lib raw = Inr (JObject kvs) \<and> map_of kvs ''error'' = Some (JString reason)"
  then show "snd (fetch_dxb_from_slave lib raw) = Inl (RuntimeError (''Slave returned error: '' @ reason))"
    using fetch_error [of raw lib kvs "JString reason"] by simp
next
  assume "raw \<noteq> [] \<and> parse_line lib raw = Inr (JObject kvs) \<and> map_of kvs ''error'' = None
          \<and> map_of kvs ''dxb'' = Some (JFloat distance)"
  then show "snd (fetch_dxb_from_slave lib raw) = Inr distance"
    using fetch_distance [of raw lib kvs "JFloat distance"] by simp
qed

theorem fetch_dxb_from_slave_outcomes_witness:
  \<open>snd (fetch_dxb_from_slave sample_lib []) = Inl TimeoutError
   \<and> snd (fetch_dxb_from_slave sample_lib (''{"error": "unknown command"}'' @ [CHR 0x0A]))
       = Inl (RuntimeError ''Slave returned error: unknown command'')
   \<and> snd (fetch_dxb_from_slave sample_lib (''{"dxb": 1.0}'' @ [CHR 0x0A])) = Inr (Fin 1)\<close>
proof -
  have e: \<open>parse_line sample_lib (''{"error": "unknown command"}'' @ [CHR 0x0A])
             = Inr (JObject [(''error'', JString ''unknown command'')])\<close>
    by (simp add: sample_simps)
  have d: \<open>parse_line sample_lib (''{"dxb": 1.0}'' @ [CHR 0x0A]) = Inr (JObject [(''dxb'', JFloat (Fin 1))])\<close>
    by (simp add: sample_simps)
  show ?thesis
    using fetch_dxb_from_slave_outcomes [of sample_lib "[]" "[]" "[]" "Fin 0"]
      fetch_dxb_from_slave_outcomes [of sample_lib \<open>''{"error": "unknown command"}'' @ [CHR 0x0A]\<close>
        "[(''error'', JString ''unknown command'')]" "''unknown command''" "Fin 0"]
      fetch_dxb_from_slave_outcomes [of sample_lib \<open>''{"dxb": 1.0}'' @ [CHR 0x0A]\<close>
        "[(''dxb'', JFloat (Fin 1))]" "[]" "Fin 1"]
      e d
    by simp
qed

section \<open>The Responder\<close>

text \<open>
  Claim C9 says that a line that is not valid JSON is logged and dropped and that the
  loop goes on. The handler at the call of \<^verbatim>\<open>json.loads\<close> catches
  \<^verbatim>\<open>JSONDecodeError\<close> and \<^verbatim>\<open>UnicodeDecodeError\<close> only. A line of 2000 opening
  brackets is not valid JSON, \<^verbatim>\<open>json.loads\<close> raises \<^verbatim>\<open>RecursionError\<close> on it, no
  handler catches that, and the request that follows is never answered.
\<close>

theorem run_slave_crashes_on_deep_nesting:
  \<open>parse_line sample_lib (replicate 2000 (CHR ''['') @ [CHR 0x0A]) = Inl RecursionError
   \<and> run_slave sample_lib
        [replicate 2000 (CHR ''['') @ [CHR 0x0A], ''{"cmd": "GET_DISTANCE"}'' @ [CHR 0x0A]]
        [''1.0'']
       = ([], Crashed RecursionError)\<close>
  by (simp add: sample_bracket_line slave_iteration_def)

text \<open>
  Claim C8 says that a line that parses but has no \<^verbatim>\<open>cmd\<close> field is dropped without
  an answer. It is not: for the line \<^verbatim>\<open>{}\<close> the Responder writes the error response.
\<close>

theorem missing_cmd_counterexample:
  \<open>parse_line sample_lib (''{}'' @ [CHR 0x0A]) = Inr (JObject [])
   \<and> map_of ([] :: (string \<times> json) list) ''cmd'' = None
   \<and> writes (fst (slave_iteration sample_lib (''{}'' @ [CHR 0x0A]) [])) =
        [''{"error": "unknown command"}'' @ [CHR 0x0A]]
   \<and> writes (fst (slave_iteration sample_lib (''{}'' @ [CHR 0x0A]) [])) \<noteq> []\<close>
  by (simp add: sample_simps slave_iteration_def)

text \<open>
  Claim C8, amended. A line that parses as a JSON object whose \<^verbatim>\<open>cmd\<close> field is
  missing, or is not \<^verbatim>\<open>GET_DISTANCE\<close>, is answered with the one line
  \<^verbatim>\<open>{"error": "unknown command"}\<close>, and the loop goes on with the lines that follow.
\<close>

theorem run_slave_unknown_command:
  assumes "raw \<noteq> []" and "parse_line lib raw = Inr (JObject kvs)"
    and "map_of kvs ''cmd'' \<noteq> Some (JString ''GET_DISTANCE'')"
  shows "writes (fst (slave_iteration lib raw stdin)) =
           [send_line lib (JObject [(''error'', JString ''unknown command'')])]
       \<and> snd (slave_iteration lib raw stdin) = Inr stdin
       \<and> run_slave lib (raw # rest) stdin =
           (fst (slave_iteration lib raw stdin) @ fst (run_slave lib rest stdin),
            snd (run_slave lib rest stdin))"
proof -
  have it: "slave_iteration lib raw stdin =
     ([Print (Log_request (JObject kvs)),
       Write (send_line lib (JObject [(''error'', JString ''unknown command'')])),
       Print Log_unknown], Inr stdin)"
    using assms by (rule slave_iteration_other)
  from run_slave_continue [OF it, of rest] it show ?thesis by simp
qed

theorem run_slave_unknown_command_witness:
  \<open>run_slave sample_lib [''{}'' @ [CHR 0x0A], ''{"cmd": "GET_DISTANCE"}'' @ [CHR 0x0A]] [''1.0''] =
     ([Print (Log_request (JObject [])),
       Write (''{"error": "unknown command"}'' @ [CHR 0x0A]),
       Print Log_unknown,
       Print (Log_request (JObject [(''cmd'', JString ''GET_DISTANCE'')])),
       Write (''{"dxb": 1.0}'' @ [CHR 0x0A]), Print (Log_sent (Fin 1))], Listening)\<close>
proof -
  have a: \<open>parse_line sample_lib (''{}'' @ [CHR 0x0A]) = Inr (JObject [])\<close>
    by (simp add: sample_simps)
  have i: \<open>slave_iteration sample_lib (''{}'' @ [CHR 0x0A]) [''1.0''] =
     ([Print (Log_request (JObject [])),
       Write (''{"error": "unknown command"}'' @ [CHR 0x0A]),
       Print Log_unknown], Inr [''1.0''])\<close>
    by (simp add: sample_simps slave_iteration_def)
  have c: \<open>run_slave sample_lib [''{"cmd": "GET_DISTANCE"}'' @ [CHR 0x0A]] [''1.0''] =
       ([Print (Log_request (JObject [(''cmd'', JString ''GET_DISTANCE'')])),
         Write (''{"dxb": 1.0}'' @ [CHR 0x0A]), Print (Log_sent (Fin 1))], Listening)\<close>
    by (simp add: sample_simps slave_iteration_def)
  show ?thesis
    using run_slave_unknown_command [OF _ a, where stdin = "[''1.0'']"
        and rest = \<open>[''{"cmd": "GET_DISTANCE"}'' @ [CHR 0x0A]]\<close>] i c
    by simp
qed

text \<open>
  Claim C5 says that no line makes the Responder stop. A line that parses as JSON but
  not as an object does: for the line \<^verbatim>\<open>[]\<close> the call \<^verbatim>\<open>request.get("cmd")\<close> raises
  \<^verbatim>\<open>AttributeError\<close>, which no handler catches, and the request that follows is never
  answered.
\<close>

theorem run_slave_crashes_on_non_object:
  \<open>parse_line sample_lib (''[]'' @ [CHR 0x0A]) = Inr (JArray [])
   \<and> run_slave sample_lib [''[]'' @ [CHR 0x0A], ''{"cmd": "GET_DISTANCE"}'' @ [CHR 0x0A]] [''1.0''] =
       ([Print (Log_request (JArray []))], Crashed AttributeError)\<close>
  by (simp add: sample_simps slave_iteration_def)

end
